theory Spec2Isabelle
  imports Main "HOL-Library.Word"
begin

section \<open>ACFP: an INI-like configuration file parser (src/ACFP.h)\<close>

text \<open>
  The header is embedded function by function. A \<open>std::string_view\<close> is a \<open>string\<close>
  (a list of bytes); \<open>remove_prefix\<close>, \<open>remove_suffix\<close> and \<open>substr\<close> become
  \<open>drop\<close> and \<open>take\<close>. \<open>std::string_view::npos\<close> is \<open>None\<close>. Every \<open>throw\<close> is a
  value \<open>Inl e\<close> of the type \<open>error + 'a\<close>; reading \<open>front()\<close> of an empty view, which
  the C++ standard leaves undefined, is the error \<open>OutOfBoundsRead\<close>.
\<close>

subsection \<open>Errors\<close>

datatype error =
    DomainError string                 \<comment> \<open>\<open>std::domain_error\<close>: Could not parse '{}' as bool\<close>
  | RangeError string                  \<comment> \<open>\<open>std::range_error\<close>: String '{}' not representible\<close>
  | InvalidArgument string             \<comment> \<open>\<open>std::invalid_argument\<close>: String '{}' is not a valid {}\<close>
  | UnknownError string                \<comment> \<open>\<open>std::runtime_error\<close>: Unknown error while parsing\<close>
  | UnfinishedQuoted "16 word" string  \<comment> \<open>\<open>std::runtime_error\<close>: Unfished quoted string on line {}: '{}'\<close>
  | MalformedLine "32 word" string     \<comment> \<open>\<open>std::runtime_error\<close>: Malformed line on line {}: '{}'\<close>
  | OutOfBoundsRead                    \<comment> \<open>\<open>front()\<close> of an empty \<open>string_view\<close>\<close>

subsection \<open>Characters that Isabelle strings cannot hold literally\<close>

definition backslash :: char where
  "backslash = CHR 0x5C"

definition dquote :: char where
  "dquote = CHR 0x22"

definition tab :: char where
  "tab = CHR 0x09"

subsection \<open>\<open>Parser<bool>\<close>\<close>

definition Parser_bool_parse :: "string \<Rightarrow> error + bool" where
  "Parser_bool_parse sv =
     (if length sv > 0 then
        (let c = sv ! 0 in
         if c = CHR ''0'' \<or> c = CHR ''f'' \<or> c = CHR ''n'' \<or> c = CHR ''F'' \<or> c = CHR ''N''
           then Inr False
         else if c = CHR ''1'' \<or> c = CHR ''t'' \<or> c = CHR ''y'' \<or> c = CHR ''T'' \<or> c = CHR ''Y''
           then Inr True
         else Inl (DomainError sv))
      else Inl (DomainError sv))"

subsection \<open>\<open>Parser<T>\<close> for integral types\<close>

datatype errc = errc_ok | result_out_of_range | invalid_argument | errc_other

definition is_digit :: "char \<Rightarrow> bool" where
  "is_digit c = (48 \<le> (of_char c :: nat) \<and> (of_char c :: nat) \<le> 57)"

definition digit_val :: "char \<Rightarrow> int" where
  "digit_val c = int (of_char c) - 48"

definition digits_value :: "string \<Rightarrow> int" where
  "digits_value ds = foldl (\<lambda>a c. 10 * a + digit_val c) 0 ds"

text \<open>
  Modelled from the spec: the locale-independent numeric text-to-value conversion that
  the header delegates to, \<open>std::from_chars\<close> of the C++ standard library, is called
  and not defined in the repository. The model is the base-10 conversion for an integral type whose values are
  \<open>lo..hi\<close>, as ISO C++ [charconv.from.chars] describes it: a minus sign is recognised
  for a signed type only, no plus sign and no leading white space; the longest prefix
  matching the pattern is consumed; with no match the error is \<open>invalid_argument\<close> and
  nothing is consumed; with a match whose value is not in \<open>lo..hi\<close> the error is
  \<open>result_out_of_range\<close>. The result is \<open>(ptr, ec, v)\<close>, \<open>ptr\<close> the number of
  characters consumed; \<open>v\<close> is meaningful when \<open>ec = errc_ok\<close> only.
\<close>

definition from_chars_int :: "int \<Rightarrow> int \<Rightarrow> string \<Rightarrow> nat \<times> errc \<times> int" where
  "from_chars_int lo hi sv =
     (let neg = (lo < 0 \<and> sv \<noteq> [] \<and> hd sv = CHR ''-'');
          body = (if neg then tl sv else sv);
          ds = takeWhile is_digit body;
          v = (if neg then - digits_value ds else digits_value ds);
          p = (if neg then 1 else 0) + length ds
      in if ds = [] then (0, invalid_argument, 0)
         else if v < lo \<or> hi < v then (p, result_out_of_range, 0)
         else (p, errc_ok, v))"

text \<open>
  \<open>Parser<T>::parse\<close>, with the conversion it delegates to as the parameter \<open>fc\<close>.
  Only the error code of the conversion is inspected; \<open>ptr\<close> is bound and never read.
\<close>

definition Parser_parse :: "(string \<Rightarrow> nat \<times> errc \<times> 'a) \<Rightarrow> string \<Rightarrow> error + 'a" where
  "Parser_parse fc sv =
     (case fc sv of (ptr, ec, v) \<Rightarrow>
        if ec = result_out_of_range then Inl (RangeError sv)
        else if ec = invalid_argument then Inl (InvalidArgument sv)
        else if ec \<noteq> errc_ok then Inl (UnknownError sv)
        else Inr v)"

text \<open>\<open>parse<int>\<close> for a 32-bit \<open>int\<close>.\<close>

definition parse_int32 :: "string \<Rightarrow> error + int" where
  "parse_int32 sv = Parser_parse (from_chars_int (- (2 ^ 31)) (2 ^ 31 - 1)) sv"

text \<open>The optional-chaining overload \<open>parse<T>(std::optional<std::string_view>)\<close>.\<close>

definition parse_opt :: "(string \<Rightarrow> error + 'a) \<Rightarrow> string option \<Rightarrow> error + 'a option" where
  "parse_opt p osv =
     (case osv of
        Some sv \<Rightarrow> (case p sv of Inl e \<Rightarrow> Inl e | Inr v \<Rightarrow> Inr (Some v))
      | None \<Rightarrow> Inr None)"

subsection \<open>The data model: \<open>Section\<close>, \<open>SectionGroup\<close>, \<open>ConfigTable\<close>\<close>

text \<open>
  Each class holds one \<open>std::unordered_map\<close>, a finite map looked up by key. The member
  \<open>fields\<close> of \<open>Section\<close> is called \<open>fields_map\<close>, since the record package owns the
  name \<open>fields\<close>.
\<close>

record Section =
  fields_map :: "string \<rightharpoonup> string"

record SectionGroup =
  sections :: "string \<rightharpoonup> Section"

record ConfigTable =
  groups :: "string \<rightharpoonup> SectionGroup"

definition empty_section :: Section where
  "empty_section = \<lparr>fields_map = Map.empty\<rparr>"

definition empty_section_group :: SectionGroup where
  "empty_section_group = \<lparr>sections = Map.empty\<rparr>"

definition empty_table :: ConfigTable where
  "empty_table = \<lparr>groups = Map.empty\<rparr>"

definition hasField :: "Section \<Rightarrow> string \<Rightarrow> bool" where
  "hasField s key = (fields_map s key \<noteq> None)"

definition getField :: "Section \<Rightarrow> string \<Rightarrow> string option" where
  "getField s key = (case fields_map s key of None \<Rightarrow> None | Some v \<Rightarrow> Some v)"

definition getFieldAs :: "(string \<Rightarrow> error + 'a) \<Rightarrow> Section \<Rightarrow> string \<Rightarrow> error + 'a option" where
  "getFieldAs p s key = parse_opt p (getField s key)"

definition setField :: "Section \<Rightarrow> string \<Rightarrow> string \<Rightarrow> Section" where
  "setField s key v = s\<lparr>fields_map := (fields_map s)(key \<mapsto> v)\<rparr>"

text \<open>\<open>SectionGroup::operator[] const\<close>: the static empty section when the key is absent.\<close>

definition SectionGroup_index :: "SectionGroup \<Rightarrow> string \<Rightarrow> Section" where
  "SectionGroup_index g subkey =
     (case sections g subkey of None \<Rightarrow> empty_section | Some s \<Rightarrow> s)"

definition hasSubsection :: "SectionGroup \<Rightarrow> string \<Rightarrow> bool" where
  "hasSubsection g subkey = (sections g subkey \<noteq> None)"

text \<open>\<open>ConfigTable::operator[] const\<close>: the static empty group when the key is absent.\<close>

definition ConfigTable_index :: "ConfigTable \<Rightarrow> string \<Rightarrow> SectionGroup" where
  "ConfigTable_index ct key =
     (case groups ct key of None \<Rightarrow> empty_section_group | Some g \<Rightarrow> g)"

definition hasSection :: "ConfigTable \<Rightarrow> string \<Rightarrow> bool" where
  "hasSection ct key = (groups ct key \<noteq> None)"

text \<open>
  The non-const \<open>getSection(key).getSubsection(subkey)\<close>: \<open>operator[]\<close> of
  \<open>std::unordered_map\<close> inserts a default-constructed entry when the key is absent.
  The reference it returns is modelled by the path \<open>(key, subkey)\<close>; the function
  returns the table in which that path exists.
\<close>

definition getSection_getSubsection :: "ConfigTable \<Rightarrow> string \<Rightarrow> string \<Rightarrow> ConfigTable" where
  "getSection_getSubsection ct key subkey =
     (let g = (case groups ct key of None \<Rightarrow> empty_section_group | Some g \<Rightarrow> g);
          s = (case sections g subkey of None \<Rightarrow> empty_section | Some s \<Rightarrow> s)
      in ct\<lparr>groups := (groups ct)(key \<mapsto> g\<lparr>sections := (sections g)(subkey \<mapsto> s)\<rparr>)\<rparr>)"

text \<open>\<open>cur_section->setField(key, value)\<close> through the reference at path \<open>(sec, sub)\<close>.\<close>

definition setField_at :: "ConfigTable \<Rightarrow> string \<times> string \<Rightarrow> string \<Rightarrow> string \<Rightarrow> ConfigTable" where
  "setField_at ct cur key v =
     (let g = ConfigTable_index ct (fst cur);
          s = SectionGroup_index g (snd cur)
      in ct\<lparr>groups := (groups ct)(fst cur \<mapsto>
            g\<lparr>sections := (sections g)(snd cur \<mapsto> setField s key v)\<rparr>)\<rparr>)"

subsection \<open>\<open>std::string_view\<close> searches\<close>

fun find_first_of :: "string \<Rightarrow> string \<Rightarrow> nat option" where
  "find_first_of [] cs = None"
| "find_first_of (c # s) cs =
     (if c \<in> set cs then Some 0 else map_option Suc (find_first_of s cs))"

fun find_first_not_of :: "string \<Rightarrow> string \<Rightarrow> nat option" where
  "find_first_not_of [] cs = None"
| "find_first_not_of (c # s) cs =
     (if c \<notin> set cs then Some 0 else map_option Suc (find_first_not_of s cs))"

definition find_last_not_of :: "string \<Rightarrow> string \<Rightarrow> nat option" where
  "find_last_not_of sv cs =
     (case find_first_not_of (rev sv) cs of
        None \<Rightarrow> None
      | Some i \<Rightarrow> Some (length sv - 1 - i))"

definition remove_prefix :: "nat \<Rightarrow> string \<Rightarrow> string" where
  "remove_prefix n sv = drop n sv"

definition remove_suffix :: "nat \<Rightarrow> string \<Rightarrow> string" where
  "remove_suffix n sv = take (length sv - n) sv"

subsection \<open>Lexical utilities\<close>

definition default_trim_chars :: string where
  "default_trim_chars = [CHR '' '', tab]"

definition trimStringViewEnds :: "string \<Rightarrow> string \<Rightarrow> string" where
  "trimStringViewEnds sv trim_chars =
     (let sv1 = (case find_first_not_of sv trim_chars of
                   Some fnos \<Rightarrow> remove_prefix fnos sv
                 | None \<Rightarrow> sv)
      in (case find_last_not_of sv1 trim_chars of
            Some lnos \<Rightarrow> remove_suffix (length sv1 - (lnos + 1)) sv1
          | None \<Rightarrow> sv1))"

text \<open>
  The loop of \<open>findFirstNotQuoted\<close>, from position \<open>p\<close> with the flags \<open>quoted\<close> and
  \<open>escaped\<close>. The flag \<open>escaped\<close> is written in the backslash branch and in the quote
  branch only.
\<close>

function findFirstNotQuoted_loop :: "string \<Rightarrow> char \<Rightarrow> nat \<Rightarrow> bool \<Rightarrow> bool \<Rightarrow> nat option" where
  "findFirstNotQuoted_loop sv ch p quoted escaped =
     (if p < length sv then
        (if sv ! p = backslash then
           findFirstNotQuoted_loop sv ch (p + 1) quoted (\<not> escaped)
         else if sv ! p = dquote then
           findFirstNotQuoted_loop sv ch (p + 1)
             (if quoted then (if \<not> escaped then False else quoted)
              else (if \<not> escaped then True else quoted))
             False
         else if sv ! p = ch then
           (if \<not> escaped \<and> \<not> quoted then Some p
            else findFirstNotQuoted_loop sv ch (p + 1) quoted escaped)
         else findFirstNotQuoted_loop sv ch (p + 1) quoted escaped)
      else None)"
  by pat_completeness auto
termination
  by (relation "measure (\<lambda>(sv, ch, p, quoted, escaped). length sv - p)") auto

declare findFirstNotQuoted_loop.simps [simp del]

definition findFirstNotQuoted :: "string \<Rightarrow> char \<Rightarrow> nat option" where
  "findFirstNotQuoted sv ch = findFirstNotQuoted_loop sv ch 0 False False"

definition trimStringComment :: "string \<Rightarrow> string" where
  "trimStringComment sv =
     (case find_first_of sv ''#/'' of
        Some p \<Rightarrow>
          if sv ! p = CHR ''#'' then remove_suffix (length sv - p) sv
          else if sv ! p = CHR ''/'' \<and> length sv > p + 1 \<and> sv ! (p + 1) = CHR ''/''
            then remove_suffix (length sv - p) sv
          else sv
      | None \<Rightarrow> sv)"

text \<open>
  \<open>trimStringQuotes\<close>: the parameter \<open>line_num\<close> is a \<open>uint16_t\<close>. \<open>sv.front()\<close> is read
  before any size check.
\<close>

definition trimStringQuotes :: "string \<Rightarrow> 16 word \<Rightarrow> char \<Rightarrow> char \<Rightarrow> error + string" where
  "trimStringQuotes sv line_num front back =
     (if sv = [] then Inl OutOfBoundsRead
      else if hd sv = front then
        (let sv1 = remove_prefix 1 sv
         in if length sv1 = 0 \<or> last sv1 \<noteq> back
            then Inl (UnfinishedQuoted line_num sv1)
            else Inr (remove_suffix 1 sv1))
      else Inr sv)"

definition findEqPos :: "string \<Rightarrow> nat option" where
  "findEqPos line = findFirstNotQuoted line (CHR ''='')"

subsection \<open>\<open>parseConfigFile\<close>\<close>

text \<open>
  The state of the loop: the table and the cursor \<open>cur_section\<close>, a pointer into the
  table, kept as the path (section name, subsection name) of the section it points to.
\<close>

record parse_state =
  ct :: ConfigTable
  cur_section :: "string \<times> string"

text \<open>The body of the loop for one line; \<open>line_num\<close> is the \<open>uint32_t\<close> counter.\<close>

definition parse_line :: "parse_state \<Rightarrow> 32 word \<Rightarrow> string \<Rightarrow> error + parse_state" where
  "parse_line st line_num line_string =
     (let line = trimStringComment (trimStringViewEnds line_string default_trim_chars)
      in if length line = 0 then Inr st
         else if hd line = CHR ''['' then
           (case trimStringQuotes line (ucast line_num) (CHR ''['') (CHR '']'') of
              Inl e \<Rightarrow> Inl e
            | Inr line \<Rightarrow>
               (case findFirstNotQuoted line (CHR '' '') of
                  None \<Rightarrow>
                    Inr \<lparr>ct = getSection_getSubsection (ct st) line [],
                         cur_section = (line, [])\<rparr>
                | Some sep \<Rightarrow>
                   (case trimStringQuotes (trimStringViewEnds (take sep line) default_trim_chars)
                           (ucast line_num) dquote dquote of
                      Inl e \<Rightarrow> Inl e
                    | Inr section_name \<Rightarrow>
                       (case trimStringQuotes
                               (trimStringViewEnds (drop (sep + 1) line) default_trim_chars)
                               (ucast line_num) dquote dquote of
                          Inl e \<Rightarrow> Inl e
                        | Inr section_subname \<Rightarrow>
                            Inr \<lparr>ct = getSection_getSubsection (ct st) section_name section_subname,
                                 cur_section = (section_name, section_subname)\<rparr>))))
         else
           (case findEqPos line of
              None \<Rightarrow> Inl (MalformedLine line_num line)
            | Some eq_pos \<Rightarrow>
               (case trimStringQuotes (trimStringViewEnds (take eq_pos line) default_trim_chars)
                       (ucast line_num) dquote dquote of
                  Inl e \<Rightarrow> Inl e
                | Inr key \<Rightarrow>
                   (case trimStringQuotes
                           (trimStringViewEnds (drop (eq_pos + 1) line) default_trim_chars)
                           (ucast line_num) dquote dquote of
                      Inl e \<Rightarrow> Inl e
                    | Inr v \<Rightarrow>
                        Inr (st\<lparr>ct := setField_at (ct st) (cur_section st) key v\<rparr>)))))"

text \<open>The \<open>for\<close> loop over the lines that \<open>std::getline\<close> delivers.\<close>

fun parse_lines :: "parse_state \<Rightarrow> 32 word \<Rightarrow> string list \<Rightarrow> error + parse_state" where
  "parse_lines st line_num [] = Inr st"
| "parse_lines st line_num (l # ls) =
     (case parse_line st line_num l of
        Inl e \<Rightarrow> Inl e
      | Inr st' \<Rightarrow> parse_lines st' (line_num + 1) ls)"

definition initial_state :: parse_state where
  "initial_state = \<lparr>ct = getSection_getSubsection empty_table [] [], cur_section = ([], [])\<rparr>"

definition parseConfigFile :: "string list \<Rightarrow> error + ConfigTable" where
  "parseConfigFile ls =
     (case parse_lines initial_state 1 ls of
        Inl e \<Rightarrow> Inl e
      | Inr st \<Rightarrow> Inr (ct st))"

subsection \<open>Notions of the specification\<close>

text \<open>
  Case-insensitive comparison of a character: the ASCII capital letters \<open>A\<close>..\<open>Z\<close> are
  mapped to \<open>a\<close>..\<open>z\<close>, every other byte to itself.
\<close>

definition ascii_tolower :: "char \<Rightarrow> char" where
  "ascii_tolower c =
     (if 65 \<le> (of_char c :: nat) \<and> (of_char c :: nat) \<le> 90
      then char_of (of_char c + 32 :: nat) else c)"

text \<open>A \<open>#\<close> or a \<open>//\<close> sequence occurs somewhere in the line.\<close>

fun comment_start_occurs :: "string \<Rightarrow> bool" where
  "comment_start_occurs [] = False"
| "comment_start_occurs (c # s) =
     (c = CHR ''#'' \<or> (c = CHR ''/'' \<and> s \<noteq> [] \<and> hd s = CHR ''/'') \<or> comment_start_occurs s)"

section \<open>Properties\<close>

subsection \<open>The boolean parser\<close>

lemma of_char_tolower:
  "(of_char (ascii_tolower c) :: nat) =
     (if 65 \<le> (of_char c :: nat) \<and> (of_char c :: nat) \<le> 90 then of_char c + 32 else of_char c)"
  by (simp add: ascii_tolower_def)

lemma char_eq_nat: "c = d \<longleftrightarrow> (of_char c :: nat) = of_char d"
  by simp

lemma tolower_cases:
  "ascii_tolower c = CHR ''0'' \<longleftrightarrow> c = CHR ''0''"
  "ascii_tolower c = CHR ''1'' \<longleftrightarrow> c = CHR ''1''"
  "ascii_tolower c = CHR ''f'' \<longleftrightarrow> c = CHR ''f'' \<or> c = CHR ''F''"
  "ascii_tolower c = CHR ''n'' \<longleftrightarrow> c = CHR ''n'' \<or> c = CHR ''N''"
  "ascii_tolower c = CHR ''t'' \<longleftrightarrow> c = CHR ''t'' \<or> c = CHR ''T''"
  "ascii_tolower c = CHR ''y'' \<longleftrightarrow> c = CHR ''y'' \<or> c = CHR ''Y''"
  unfolding char_eq_nat of_char_tolower
  by (simp_all; arith)+

text \<open>
  Claim C8. The boolean parse looks at the first character only, without regard to
  case: a string that starts with \<open>0\<close>, \<open>f\<close> or \<open>n\<close> parses to false, one that starts with
  \<open>1\<close>, \<open>t\<close> or \<open>y\<close> parses to true, and the empty string and every string with another
  first character fail with the not-a-boolean error. The rest of the string plays no
  part.
\<close>

theorem Parser_bool_parse_first_char:
  "Parser_bool_parse sv =
     (if sv \<noteq> [] \<and> ascii_tolower (hd sv) \<in> {CHR ''0'', CHR ''f'', CHR ''n''} then Inr False
      else if sv \<noteq> [] \<and> ascii_tolower (hd sv) \<in> {CHR ''1'', CHR ''t'', CHR ''y''} then Inr True
      else Inl (DomainError sv))"
proof (cases sv)
  case Nil
  then show ?thesis by (simp add: Parser_bool_parse_def)
next
  case (Cons c cs)
  then show ?thesis
    by (simp add: Parser_bool_parse_def tolower_cases)
qed

theorem Parser_bool_parse_first_char_witness:
  "Parser_bool_parse ''yes'' = Inr True \<and> Parser_bool_parse ''Nope'' = Inr False
   \<and> Parser_bool_parse ''maybe'' = Inl (DomainError ''maybe'')
   \<and> Parser_bool_parse [] = Inl (DomainError [])"
  using Parser_bool_parse_first_char [of "''yes''"] Parser_bool_parse_first_char [of "''Nope''"]
    Parser_bool_parse_first_char [of "''maybe''"] Parser_bool_parse_first_char [of "[]"]
  by (simp add: tolower_cases)

subsection \<open>Fields of a section\<close>

text \<open>
  Claim C9. In every section, a field that is set is read back with the value it was
  set to, and after two writes to one key the field holds the second value.
\<close>

theorem setField_getField_roundtrip:
  "getField (setField s k v) k = Some v
   \<and> getField (setField (setField s k v) k v2) k = Some v2"
  by (simp add: getField_def setField_def)

subsection \<open>The numeric parser\<close>

lemma is_digit_not_minus: "is_digit c \<Longrightarrow> c \<noteq> CHR ''-''"
  by (auto simp: is_digit_def)

lemma takeWhile_digits_prefix:
  assumes "\<forall>c\<in>set ds. is_digit c" "rest = [] \<or> \<not> is_digit (hd rest)"
  shows "takeWhile is_digit (ds @ rest) = ds"
proof -
  have "takeWhile is_digit rest = []"
    using assms(2) by (cases rest) auto
  with assms(1) show ?thesis by (simp add: takeWhile_append2)
qed

lemma from_chars_int_unsigned_prefix:
  assumes "ds \<noteq> []" "\<forall>c\<in>set ds. is_digit c" "rest = [] \<or> \<not> is_digit (hd rest)"
  shows "from_chars_int lo hi (ds @ rest) =
           (if digits_value ds < lo \<or> hi < digits_value ds
            then (length ds, result_out_of_range, 0)
            else (length ds, errc_ok, digits_value ds))"
proof -
  from assms(1,2) have "hd (ds @ rest) \<noteq> CHR ''-''"
    by (cases ds) (auto dest: is_digit_not_minus)
  then show ?thesis
    using assms(1) takeWhile_digits_prefix [OF assms(2,3)]
    by (simp add: from_chars_int_def Let_def)
qed

lemma from_chars_int_signed_prefix:
  assumes "lo < 0" "ds \<noteq> []" "\<forall>c\<in>set ds. is_digit c" "rest = [] \<or> \<not> is_digit (hd rest)"
  shows "from_chars_int lo hi (CHR ''-'' # ds @ rest) =
           (if - digits_value ds < lo \<or> hi < - digits_value ds
            then (Suc (length ds), result_out_of_range, 0)
            else (Suc (length ds), errc_ok, - digits_value ds))"
  using assms(1,2) takeWhile_digits_prefix [OF assms(3,4)]
  by (simp add: from_chars_int_def Let_def)

lemma Parser_parse_success_iff:
  "Parser_parse fc sv = Inr v \<longleftrightarrow> (\<exists>p. fc sv = (p, errc_ok, v))"
proof (cases "fc sv")
  case (fields p ec w)
  then show ?thesis
    by (cases ec) (simp_all add: Parser_parse_def)
qed

lemma digits_12: "digits_value ''12'' = 12"
  by (simp add: digits_value_def digit_val_def)

text \<open>
  Claim C1, as the code has it. The numeric parse succeeds exactly when the conversion
  reports no error, however many characters it consumed. For the integer conversion: when
  the input starts with a non-empty run of decimal digits (after a minus sign, for a
  signed type) and the run is followed by nothing or by a character that is not a digit,
  the parse returns the value of that run when the type can represent it, and fails
  with the out-of-range error otherwise. The characters after the run are ignored.
\<close>

theorem Parser_parse_numeric_prefix:
  "(Parser_parse fc sv = Inr v \<longleftrightarrow> (\<exists>p. fc sv = (p, errc_ok, v)))
   \<and> (ds \<noteq> [] \<and> (\<forall>c\<in>set ds. is_digit c) \<and> (rest = [] \<or> \<not> is_digit (hd rest)) \<longrightarrow>
        Parser_parse (from_chars_int lo hi) (ds @ rest) =
          (if lo \<le> digits_value ds \<and> digits_value ds \<le> hi then Inr (digits_value ds)
           else Inl (RangeError (ds @ rest)))
        \<and> (lo < 0 \<longrightarrow>
             Parser_parse (from_chars_int lo hi) (CHR ''-'' # ds @ rest) =
               (if lo \<le> - digits_value ds \<and> - digits_value ds \<le> hi
                then Inr (- digits_value ds)
                else Inl (RangeError (CHR ''-'' # ds @ rest)))))"
proof (intro conjI impI)
  show "Parser_parse fc sv = Inr v \<longleftrightarrow> (\<exists>p. fc sv = (p, errc_ok, v))"
    by (rule Parser_parse_success_iff)
next
  assume a: "ds \<noteq> [] \<and> (\<forall>c\<in>set ds. is_digit c) \<and> (rest = [] \<or> \<not> is_digit (hd rest))"
  then show "Parser_parse (from_chars_int lo hi) (ds @ rest) =
          (if lo \<le> digits_value ds \<and> digits_value ds \<le> hi then Inr (digits_value ds)
           else Inl (RangeError (ds @ rest)))"
    using from_chars_int_unsigned_prefix [of ds rest lo hi]
    by (auto simp add: Parser_parse_def)
  assume "lo < 0"
  with a show "Parser_parse (from_chars_int lo hi) (CHR ''-'' # ds @ rest) =
               (if lo \<le> - digits_value ds \<and> - digits_value ds \<le> hi
                then Inr (- digits_value ds)
                else Inl (RangeError (CHR ''-'' # ds @ rest)))"
    using from_chars_int_signed_prefix [of lo ds rest hi]
    by (auto simp add: Parser_parse_def)
qed

theorem Parser_parse_numeric_prefix_witness:
  "parse_int32 ''12abc'' = Inr 12 \<and> parse_int32 ''-12abc'' = Inr (- 12)"
  using Parser_parse_numeric_prefix
    [of "from_chars_int (- (2 ^ 31)) (2 ^ 31 - 1)" "''12abc''" 12 "''12''" "''abc''"
        "- (2 ^ 31)" "2 ^ 31 - 1"]
  by (simp add: parse_int32_def is_digit_def digits_12)

text \<open>
  Claim C1, as it is stated, fails: on \<open>12abc\<close> the conversion consumes two of the five
  characters and the parse returns 12.
\<close>

theorem Parser_parse_trailing_counterexample:
  "parse_int32 ''12abc'' = Inr 12
   \<and> fst (from_chars_int (- (2 ^ 31)) (2 ^ 31 - 1) ''12abc'') = 2
   \<and> (2::nat) < length ''12abc''"
  by (simp add: parse_int32_def Parser_parse_def from_chars_int_def is_digit_def
      digits_value_def digit_val_def)

subsection \<open>Comment stripping\<close>

lemma find_first_of_Some:
  "find_first_of sv cs = Some p \<Longrightarrow> p < length sv \<and> sv ! p \<in> set cs"
  by (induction sv arbitrary: p) (auto split: if_splits)

lemma find_first_of_none:
  "set sv \<inter> set cs = {} \<Longrightarrow> find_first_of sv cs = None"
  by (induction sv) auto

lemma find_first_of_append:
  "set pre \<inter> set cs = {} \<Longrightarrow> c \<in> set cs \<Longrightarrow>
   find_first_of (pre @ c # rest) cs = Some (length pre)"
  by (induction pre) auto

lemma comment_start_occurs_nth:
  "\<not> comment_start_occurs sv \<Longrightarrow> p < length sv \<Longrightarrow>
   sv ! p \<noteq> CHR ''#'' \<and> \<not> (sv ! p = CHR ''/'' \<and> Suc p < length sv \<and> sv ! Suc p = CHR ''/'')"
proof (induction sv arbitrary: p)
  case Nil
  then show ?case by simp
next
  case (Cons c s)
  show ?case
  proof (cases p)
    case 0
    with Cons.prems show ?thesis by (cases s) auto
  next
    case (Suc q)
    with Cons show ?thesis by auto
  qed
qed

text \<open>
  Claim C2, as the code has it. Comment stripping looks at the first \<open>#\<close> or \<open>/\<close> of the
  line, with no regard to quotes or to a backslash before it: when that character is
  \<open>#\<close>, or is \<open>/\<close> with another \<open>/\<close> right after it, the line is cut there. A line in
  which neither \<open>#\<close> nor \<open>//\<close> occurs is left as it is.
\<close>

theorem trimStringComment_first_marker:
  "(CHR ''#'' \<notin> set pre \<and> CHR ''/'' \<notin> set pre \<longrightarrow>
      trimStringComment (pre @ CHR ''#'' # rest) = pre
      \<and> trimStringComment (pre @ CHR ''/'' # CHR ''/'' # rest) = pre)
   \<and> (\<not> comment_start_occurs sv \<longrightarrow> trimStringComment sv = sv)"
proof (intro conjI impI)
  assume pre: "CHR ''#'' \<notin> set pre \<and> CHR ''/'' \<notin> set pre"
  then have disj: "set pre \<inter> set ''#/'' = {}" by auto
  have "find_first_of (pre @ CHR ''#'' # rest) ''#/'' = Some (length pre)"
    using disj by (rule find_first_of_append) simp
  then show "trimStringComment (pre @ CHR ''#'' # rest) = pre"
    by (simp add: trimStringComment_def remove_suffix_def)
  have "find_first_of (pre @ CHR ''/'' # CHR ''/'' # rest) ''#/'' = Some (length pre)"
    using disj by (rule find_first_of_append) simp
  then show "trimStringComment (pre @ CHR ''/'' # CHR ''/'' # rest) = pre"
    by (simp add: trimStringComment_def remove_suffix_def nth_append)
next
  assume no: "\<not> comment_start_occurs sv"
  show "trimStringComment sv = sv"
  proof (cases "find_first_of sv ''#/''")
    case None
    then show ?thesis by (simp add: trimStringComment_def)
  next
    case (Some p)
    then have "p < length sv" by (simp add: find_first_of_Some)
    with no have "sv ! p \<noteq> CHR ''#''"
      and "\<not> (sv ! p = CHR ''/'' \<and> Suc p < length sv \<and> sv ! Suc p = CHR ''/'')"
      using comment_start_occurs_nth by blast+
    with Some show ?thesis by (auto simp add: trimStringComment_def)
  qed
qed

theorem trimStringComment_first_marker_witness:
  "trimStringComment ''k = v # note'' = ''k = v ''
   \<and> trimStringComment ''k = v // note'' = ''k = v ''
   \<and> trimStringComment ''k = a/b'' = ''k = a/b''"
  using trimStringComment_first_marker [of "''k = v ''" "'' note''" "''k = a/b''"]
  by simp

text \<open>
  Claim C2, as it is stated, fails twice. The line made of \<open>a\<close>, a backslash,
  \<open>#\<close> and \<open>b\<close> holds no unescaped \<open>#\<close> and is cut before the escaped one all the same. In the line \<open>a/b#c\<close> a \<open>#\<close> occurs and the
  line is left whole, because the search stopped at the single \<open>/\<close> before it.
\<close>

theorem trimStringComment_counterexample:
  "trimStringComment [CHR ''a'', backslash, CHR ''#'', CHR ''b''] = [CHR ''a'', backslash]
   \<and> comment_start_occurs ''a/b#c''
   \<and> trimStringComment ''a/b#c'' = ''a/b#c''"
  by (simp add: trimStringComment_def remove_suffix_def backslash_def)

subsection \<open>The quote-aware search\<close>

lemma loop_no_target:
  "(\<forall>i. p \<le> i \<and> i < length sv \<longrightarrow> sv ! i \<noteq> ch) \<Longrightarrow>
   findFirstNotQuoted_loop sv ch p quoted escaped = None"
proof (induction sv ch p quoted escaped rule: findFirstNotQuoted_loop.induct)
  case (1 sv ch p quoted escaped)
  show ?case
  proof (cases "p < length sv")
    case False
    then show ?thesis by (simp add: findFirstNotQuoted_loop.simps [of sv ch p])
  next
    case True
    with "1.prems" have "sv ! p \<noteq> ch" by simp
    moreover have "\<forall>i. p + 1 \<le> i \<and> i < length sv \<longrightarrow> sv ! i \<noteq> ch"
      using "1.prems" by simp
    ultimately show ?thesis
      using True "1.IH"
      by (subst findFirstNotQuoted_loop.simps) simp
  qed
qed

text \<open>
  Once the flag \<open>escaped\<close> is set it stays set until the next backslash or quote: while
  neither occurs, no character is reported.
\<close>

lemma loop_stays_escaped:
  "(\<forall>i. p \<le> i \<and> i < length sv \<longrightarrow> sv ! i \<noteq> backslash \<and> sv ! i \<noteq> dquote) \<Longrightarrow>
   findFirstNotQuoted_loop sv ch p quoted True = None"
proof (induction "length sv - p" arbitrary: p)
  case 0
  then show ?case by (simp add: findFirstNotQuoted_loop.simps [of sv ch p])
next
  case (Suc k)
  then have "p < length sv" by simp
  moreover from this Suc.prems have "sv ! p \<noteq> backslash" "sv ! p \<noteq> dquote" by simp_all
  moreover have "findFirstNotQuoted_loop sv ch (p + 1) quoted True = None"
    using Suc.hyps Suc.prems by (intro Suc.hyps(1)) auto
  ultimately show ?case
    by (subst findFirstNotQuoted_loop.simps) simp
qed

lemma escaped_char_hides_rest:
  assumes "\<forall>c\<in>set rest. c \<noteq> backslash \<and> c \<noteq> dquote"
  shows "findFirstNotQuoted (backslash # rest) ch = None"
proof -
  have "\<forall>i. 1 \<le> i \<and> i < length (backslash # rest) \<longrightarrow>
          (backslash # rest) ! i \<noteq> backslash \<and> (backslash # rest) ! i \<noteq> dquote"
    using assms by (auto simp: nth_Cons')
  then have "findFirstNotQuoted_loop (backslash # rest) ch 1 False True = None"
    by (rule loop_stays_escaped)
  then show ?thesis
    by (simp add: findFirstNotQuoted_def findFirstNotQuoted_loop.simps [of _ _ 0])
qed

text \<open>
  Claim C3, on the code. In the string made of a backslash, \<open>a\<close> and \<open>=\<close> the search for
  \<open>=\<close> finds nothing: the flag set by the backslash is still set two positions later.
  Without the backslash the \<open>=\<close> is found, and after an escaped quote, where the flag
  is reset, it is found too.
\<close>

theorem escape_flag_not_reset:
  "findFirstNotQuoted [backslash, CHR ''a'', CHR ''=''] (CHR ''='') = None
   \<and> findFirstNotQuoted [CHR ''a'', CHR ''=''] (CHR ''='') = Some 1
   \<and> findFirstNotQuoted [backslash, dquote, CHR ''=''] (CHR ''='') = Some 2"
  by code_simp

subsection \<open>Trimming\<close>

lemma find_first_not_of_all:
  "set ws \<subseteq> set cs \<Longrightarrow> find_first_not_of ws cs = None"
  by (induction ws) auto

lemma find_first_not_of_append:
  "set ws \<subseteq> set cs \<Longrightarrow> c \<notin> set cs \<Longrightarrow>
   find_first_not_of (ws @ c # rest) cs = Some (length ws)"
  by (induction ws) auto

lemma find_last_not_of_append:
  assumes "mid \<noteq> []" "last mid \<notin> set cs" "set ws \<subseteq> set cs"
  shows "find_last_not_of (mid @ ws) cs = Some (length mid - 1)"
proof -
  have "rev mid = last mid # rev (butlast mid)"
    using assms(1) by (metis append_butlast_last_id rev_eq_Cons_iff rev_rev_ident)
  then have r: "rev (mid @ ws) = rev ws @ last mid # rev (butlast mid)"
    by simp
  have "set (rev ws) \<subseteq> set cs" using assms(3) by simp
  then have f: "find_first_not_of (rev ws @ last mid # rev (butlast mid)) cs = Some (length (rev ws))"
    using assms(2) by (rule find_first_not_of_append)
  have "find_first_not_of (rev (mid @ ws)) cs = Some (length ws)"
    by (simp only: r f length_rev)
  then show ?thesis
    by (simp add: find_last_not_of_def)
qed

text \<open>Between trim characters, a text that starts and ends with other characters is kept.\<close>

lemma trimStringViewEnds_trims:
  assumes "mid \<noteq> []" "hd mid \<notin> set cs" "last mid \<notin> set cs"
    and "set ws \<subseteq> set cs" "set ws' \<subseteq> set cs"
  shows "trimStringViewEnds (ws @ mid @ ws') cs = mid"
proof -
  obtain c m where mid: "mid = c # m" using assms(1) by (cases mid) auto
  with assms(2) have "c \<notin> set cs" by simp
  then have "find_first_not_of (ws @ mid @ ws') cs = Some (length ws)"
    using find_first_not_of_append [OF assms(4), of c "m @ ws'"] by (simp add: mid)
  moreover have "find_last_not_of (mid @ ws') cs = Some (length mid - 1)"
    using assms(1,3,5) by (rule find_last_not_of_append)
  ultimately show ?thesis
    using assms(1) by (simp add: trimStringViewEnds_def remove_prefix_def remove_suffix_def)
qed

lemma split_trailing:
  assumes "s \<noteq> []" "hd s \<notin> set cs"
  shows "\<exists>mid ws'. s = mid @ ws' \<and> mid \<noteq> [] \<and> last mid \<notin> set cs \<and> set ws' \<subseteq> set cs"
  using assms
proof (induction s rule: rev_induct)
  case Nil
  then show ?case by simp
next
  case (snoc x xs)
  show ?case
  proof (cases "x \<in> set cs")
    case False
    then show ?thesis
      by (intro exI [of _ "xs @ [x]"] exI [of _ "[]"]) simp
  next
    case True
    with snoc.prems have "xs \<noteq> []" by (cases xs) auto
    moreover from this snoc.prems have "hd xs \<notin> set cs" by simp
    ultimately obtain mid ws' where "xs = mid @ ws'" "mid \<noteq> []" "last mid \<notin> set cs"
      "set ws' \<subseteq> set cs"
      using snoc.IH by blast
    with True show ?thesis
      by (intro exI [of _ mid] exI [of _ "ws' @ [x]"]) simp
  qed
qed

lemma trimStringViewEnds_leading:
  assumes "set ws \<subseteq> set cs" "s \<noteq> []" "hd s \<notin> set cs"
  shows "\<exists>mid ws'. s = mid @ ws' \<and> mid \<noteq> [] \<and> set ws' \<subseteq> set cs
           \<and> trimStringViewEnds (ws @ s) cs = mid"
proof -
  obtain mid ws' where *: "s = mid @ ws'" "mid \<noteq> []" "last mid \<notin> set cs" "set ws' \<subseteq> set cs"
    using split_trailing [OF assms(2,3)] by blast
  then have "hd mid = hd s" by simp
  with assms(3) have "hd mid \<notin> set cs" by simp
  then have "trimStringViewEnds (ws @ mid @ ws') cs = mid"
    using * assms(1) by (intro trimStringViewEnds_trims) auto
  with * show ?thesis by blast
qed

subsection \<open>Lines that hold no entry\<close>

lemma parse_line_empty: "parse_line st n [] = Inr st"
  by (simp add: parse_line_def trimStringViewEnds_def find_last_not_of_def trimStringComment_def)

lemma trimStringComment_hash: "trimStringComment (CHR ''#'' # x) = []"
  by (simp add: trimStringComment_def remove_suffix_def)

lemma trimStringComment_slashes: "trimStringComment (CHR ''/'' # CHR ''/'' # x) = []"
  by (simp add: trimStringComment_def remove_suffix_def)

text \<open>A comment-only line, with or without white space before the comment, is skipped.\<close>

lemma comment_line_skipped:
  assumes "set ws \<subseteq> set default_trim_chars"
  shows "parse_line st n (ws @ CHR ''#'' # rest) = Inr st"
    and "parse_line st n (ws @ CHR ''/'' # CHR ''/'' # rest) = Inr st"
proof -
  have nt: "CHR ''#'' \<notin> set default_trim_chars" "CHR ''/'' \<notin> set default_trim_chars"
    by (simp_all add: default_trim_chars_def tab_def)
  obtain mid ws' where "CHR ''#'' # rest = mid @ ws'" "mid \<noteq> []"
    and t: "trimStringViewEnds (ws @ CHR ''#'' # rest) default_trim_chars = mid"
    using trimStringViewEnds_leading [OF assms, of "CHR ''#'' # rest"] nt by auto
  then obtain x where "mid = CHR ''#'' # x"
    by (cases mid) auto
  with t show "parse_line st n (ws @ CHR ''#'' # rest) = Inr st"
    by (simp add: parse_line_def trimStringComment_hash)
  obtain mid ws' where s: "CHR ''/'' # CHR ''/'' # rest = mid @ ws'" "mid \<noteq> []"
    "set ws' \<subseteq> set default_trim_chars"
    and t: "trimStringViewEnds (ws @ CHR ''/'' # CHR ''/'' # rest) default_trim_chars = mid"
    using trimStringViewEnds_leading [OF assms, of "CHR ''/'' # CHR ''/'' # rest"] nt by auto
  then obtain m where m: "mid = CHR ''/'' # m"
    by (cases mid) auto
  with s nt have "m \<noteq> []" by auto
  with s m obtain x where "mid = CHR ''/'' # CHR ''/'' # x"
    by (cases m) auto
  with t show "parse_line st n (ws @ CHR ''/'' # CHR ''/'' # rest) = Inr st"
    by (simp add: parse_line_def trimStringComment_slashes)
qed

text \<open>
  A line of spaces and tabs is not trimmed, since both searches of \<open>trimStringViewEnds\<close>
  return \<open>npos\<close>; it is then read as a key/value line without \<open>=\<close>.
\<close>

lemma whitespace_line_malformed:
  assumes "ws \<noteq> []" "set ws \<subseteq> set default_trim_chars"
  shows "parse_line st n ws = Inl (MalformedLine n ws)"
proof -
  have "find_first_not_of ws default_trim_chars = None"
    using assms(2) by (rule find_first_not_of_all)
  moreover have "find_last_not_of ws default_trim_chars = None"
    using assms(2) by (simp add: find_last_not_of_def find_first_not_of_all)
  ultimately have t: "trimStringViewEnds ws default_trim_chars = ws"
    by (simp add: trimStringViewEnds_def)
  have sub: "set ws \<subseteq> {CHR '' '', tab}"
    using assms(2) by (simp add: default_trim_chars_def)
  then have "set ws \<inter> set ''#/'' = {}"
    by (auto simp: tab_def)
  then have c: "trimStringComment ws = ws"
    by (simp add: trimStringComment_def find_first_of_none)
  have "hd ws \<in> set ws" using assms(1) by simp
  with sub have h: "hd ws \<noteq> CHR ''[''" by (auto simp: tab_def)
  have "\<forall>i. 0 \<le> i \<and> i < length ws \<longrightarrow> ws ! i \<noteq> CHR ''=''"
    using sub by (auto simp: tab_def dest!: nth_mem)
  then have e: "findEqPos ws = None"
    by (simp add: findEqPos_def findFirstNotQuoted_def loop_no_target)
  show ?thesis
    using assms(1) by (simp add: parse_line_def t c h e)
qed

lemma blank_line_eval:
  "(case parseConfigFile ['' ''] of Inl e \<Rightarrow> e = MalformedLine 1 '' '' | Inr t \<Rightarrow> False)
   \<and> (case parseConfigFile [[tab]] of Inl e \<Rightarrow> e = MalformedLine 1 [tab] | Inr t \<Rightarrow> False)"
  by code_simp

text \<open>
  Claim C4, on the code. A file whose only line is one space, or one tab, is not parsed
  to the initial table: the parse stops with the malformed-line error for line 1.
\<close>

theorem whitespace_only_line_is_malformed:
  "parseConfigFile ['' ''] = Inl (MalformedLine 1 '' '')
   \<and> parseConfigFile [[tab]] = Inl (MalformedLine 1 [tab])"
  using blank_line_eval by (auto split: sum.splits)

subsection \<open>Section headers\<close>

lemma singleton_eval:
  "(case parseConfigFile [[CHR ''['', dquote, CHR ''f'', dquote, CHR '']''], ''k=v''] of
      Inl e \<Rightarrow> False
    | Inr t \<Rightarrow>
        getField (SectionGroup_index (ConfigTable_index t [dquote, CHR ''f'', dquote]) []) ''k''
          = Some ''v''
        \<and> \<not> hasSection t ''f'')
   \<and> (case parseConfigFile [[CHR ''['', dquote, CHR ''f'', dquote, CHR '' '', CHR ''s'', CHR '']''],
                            ''k=v''] of
      Inl e \<Rightarrow> False
    | Inr t \<Rightarrow>
        getField (SectionGroup_index (ConfigTable_index t ''f'') ''s'') ''k'' = Some ''v''
        \<and> \<not> hasSection t [dquote, CHR ''f'', dquote])"
  by code_simp

text \<open>
  Claim C5, on the code. A header with the single quoted name \<open>f\<close> opens the section
  whose name is the three characters quote, \<open>f\<close>, quote, with the empty subsection key;
  no section \<open>f\<close> exists afterwards. The header with a subsection \<open>s\<close> after the same
  quoted name opens the section \<open>f\<close>.
\<close>

theorem singleton_section_name_keeps_quotes:
  "(\<exists>t. parseConfigFile [[CHR ''['', dquote, CHR ''f'', dquote, CHR '']''], ''k=v''] = Inr t
        \<and> getField (SectionGroup_index (ConfigTable_index t [dquote, CHR ''f'', dquote]) []) ''k''
            = Some ''v''
        \<and> \<not> hasSection t ''f'')
   \<and> (\<exists>t. parseConfigFile [[CHR ''['', dquote, CHR ''f'', dquote, CHR '' '', CHR ''s'', CHR '']''],
                            ''k=v''] = Inr t
        \<and> getField (SectionGroup_index (ConfigTable_index t ''f'') ''s'') ''k'' = Some ''v''
        \<and> \<not> hasSection t [dquote, CHR ''f'', dquote])"
  using singleton_eval by (auto split: sum.splits)

subsection \<open>Lookups\<close>

text \<open>
  Claim C6. A lookup of an absent section gives the empty group, of an absent
  subsection the empty section, of an absent field no value; a chained lookup through
  any absent level ends in no value, and the typed getter then returns no value without
  an error. The typed getter fails only with the error of the scalar parser on a value
  that is present.
\<close>

theorem absent_lookup_is_default:
  "(groups t sec = None \<longrightarrow> ConfigTable_index t sec = empty_section_group)
   \<and> (sections g sub = None \<longrightarrow> SectionGroup_index g sub = empty_section)
   \<and> (fields_map s key = None \<longrightarrow> getField s key = None \<and> getFieldAs p s key = Inr None)
   \<and> (groups t sec = None
        \<or> sections (ConfigTable_index t sec) sub = None
        \<or> fields_map (SectionGroup_index (ConfigTable_index t sec) sub) key = None
      \<longrightarrow> getField (SectionGroup_index (ConfigTable_index t sec) sub) key = None
          \<and> getFieldAs p (SectionGroup_index (ConfigTable_index t sec) sub) key = Inr None)
   \<and> (getFieldAs p s key = Inl e \<longrightarrow> (\<exists>v. fields_map s key = Some v \<and> p v = Inl e))"
  by (auto simp add: ConfigTable_index_def SectionGroup_index_def getField_def getFieldAs_def
      parse_opt_def empty_section_group_def empty_section_def
      split: option.splits sum.splits)

theorem absent_lookup_is_default_witness:
  "ConfigTable_index empty_table ''x'' = empty_section_group
   \<and> SectionGroup_index empty_section_group ''y'' = empty_section
   \<and> getField empty_section ''z'' = None
   \<and> getField (SectionGroup_index (ConfigTable_index empty_table ''x'') ''y'') ''z'' = None
   \<and> getFieldAs Parser_bool_parse
        (SectionGroup_index (ConfigTable_index empty_table ''x'') ''y'') ''z'' = Inr None
   \<and> (\<exists>v. fields_map (setField empty_section ''b'' ''maybe'') ''b'' = Some v
          \<and> Parser_bool_parse v = Inl (DomainError ''maybe''))"
proof -
  have absent: "groups empty_table ''x'' = None" "sections empty_section_group ''y'' = None"
    "fields_map empty_section ''z'' = None"
    by (simp_all add: empty_table_def empty_section_group_def empty_section_def)
  have fails: "getFieldAs Parser_bool_parse (setField empty_section ''b'' ''maybe'') ''b''
                 = Inl (DomainError ''maybe'')"
    by (simp add: getFieldAs_def parse_opt_def getField_def setField_def Parser_bool_parse_def)
  show ?thesis
    using absent fails
      absent_lookup_is_default [where t = empty_table and sec = "''x''"
        and g = empty_section_group and sub = "''y''" and s = empty_section and key = "''z''"
        and p = Parser_bool_parse]
      absent_lookup_is_default [where s = "setField empty_section ''b'' ''maybe''"
        and key = "''b''" and p = Parser_bool_parse and e = "DomainError ''maybe''"]
    by simp
qed

subsection \<open>Line numbers\<close>

lemma parse_lines_skip_empty:
  "parse_lines st n (replicate k [] @ ls) = parse_lines st (n + of_nat k) ls"
  by (induction k arbitrary: n) (simp_all add: parse_line_empty add.assoc)

lemma open_bracket_line:
  "parse_line st n ''[abc'' = Inl (UnfinishedQuoted (ucast n) ''abc'')"
  by (simp add: parse_line_def trimStringViewEnds_def find_last_not_of_def trimStringComment_def
      default_trim_chars_def tab_def remove_prefix_def remove_suffix_def trimStringQuotes_def)

lemma findEqPos_abc: "findEqPos ''abc'' = None"
  by code_simp

lemma no_equals_line:
  "parse_line st n ''abc'' = Inl (MalformedLine n ''abc'')"
  by (simp add: parse_line_def trimStringViewEnds_def find_last_not_of_def trimStringComment_def
      default_trim_chars_def tab_def remove_prefix_def remove_suffix_def findEqPos_abc)

text \<open>
  Claim C7, on the code. After 65535 empty lines, an unterminated header on line 65536
  is reported with line number 0, the counter cut to 16 bits; a malformed line at the
  same place is reported with 65536.
\<close>

theorem line_number_truncated_to_16_bits:
  "parseConfigFile (replicate 65535 [] @ [''[abc'']) = Inl (UnfinishedQuoted 0 ''abc'')
   \<and> parseConfigFile (replicate 65535 [] @ [''abc'']) = Inl (MalformedLine 65536 ''abc'')"
  by (simp add: parseConfigFile_def parse_lines_skip_empty open_bracket_line no_equals_line)

subsection \<open>Quote stripping of an empty span\<close>

lemma empty_value_eval:
  "(case parseConfigFile [''k=''] of Inl e \<Rightarrow> e = OutOfBoundsRead | Inr t \<Rightarrow> False)
   \<and> (case parseConfigFile [''=v''] of Inl e \<Rightarrow> e = OutOfBoundsRead | Inr t \<Rightarrow> False)"
  by code_simp

text \<open>
  Claim C10, on the code. Quote stripping of the empty span reads its first character,
  which does not exist; the lines \<open>k=\<close> (empty value) and \<open>=v\<close> (empty key) both reach
  that read.
\<close>

theorem empty_span_reads_out_of_bounds:
  "trimStringQuotes [] 1 dquote dquote = Inl OutOfBoundsRead
   \<and> parseConfigFile [''k=''] = Inl OutOfBoundsRead
   \<and> parseConfigFile [''=v''] = Inl OutOfBoundsRead"
  using empty_value_eval by (auto simp add: trimStringQuotes_def split: sum.splits)

end
